theory Spec2Isabelle
  imports Main "HOL-Library.Word" "HOL-Library.Sublist"
begin

unbundle bit_operations_syntax

section \<open>Boot orchestrator and idle loop of the x86 PC platform (os.cpp)\<close>

text \<open>
  The embedding follows \<^verbatim>\<open>src/platform/x86_pc/os.cpp\<close>. The file has three
  functions of interest: \<^verbatim>\<open>OS::halt\<close>, \<^verbatim>\<open>OS::start\<close> and
  \<^verbatim>\<open>OS::event_loop\<close>. They run on one core and mutate class statics and two
  file-scope pointers; the model threads one state record through them. Every call to
  a collaborator that is not part of the file (logging, probing, the memory map, the
  statistics registry, plugins, the service) is recorded as an event in a trace, in
  program order, so that ordering properties can be stated about the trace.

  \<^verbatim>\<open>uintptr_t\<close> is a machine word whose width is fixed by the build target and is
  not visible in the file (the boot banner prints \<^verbatim>\<open>sizeof(uintptr_t) * 8\<close>); the
  model is polymorphic in that width: an address is an \<open>'a word\<close>.
\<close>

subsection \<open>Data\<close>

type_synonym u32 = "32 word"
type_synonym u64 = "64 word"

text \<open>A failed \<^verbatim>\<open>Expects\<close>, a rejected memory range, and a store through a null
  counter pointer.\<close>

datatype error = FatalInvariantViolation | NullPointerDereference

text \<open>\<^verbatim>\<open>Fixed_memory_range{begin, end, name, description [, in_use]}\<close>: both bounds
  are inclusive; the optional usage callback is kept by its name.\<close>

record 'p range =
  r_start :: 'p
  r_end :: 'p
  r_name :: string
  r_desc :: string
  r_in_use :: "string option"

text \<open>Arguments of the printf-style logging macros; the format string is kept as
  written and the arguments are kept unformatted.\<close>

datatype 'p arg = AStr string | AU32 u32 | APtr 'p | ARange "'p range"

datatype 'p event =
    EvCAPTION string
  | EvMYINFO string "'p arg list"
  | EvINFO2 string "'p arg list"
  | EvStatman_init 'p 'p
  | EvMultiboot u32
  | EvResume_softreset u32
  | EvLegacy_boot
  | EvAssign_range "'p range"
  | EvStatman_create string
  | EvPlatform_init
  | EvRTC_init
  | EvRNG_init
  | EvSrand
  | EvPlugin_func string
  | EvBanner
  | EvService_start
  | EvKernel_sanity_checks
  | EvProcess_interrupts
  | EvHlt
  | EvService_stop
  | EvArch_poweroff

text \<open>What a plugin's \<^verbatim>\<open>func_()\<close> does as seen by the \<^verbatim>\<open>try\<close> block around it: it
  returns, it throws something derived from \<^verbatim>\<open>std::exception\<close> (with its
  \<^verbatim>\<open>what()\<close>), or it throws anything else.\<close>

datatype plugin_outcome = Returns | Throws_std_exception string | Throws_other

record plugin =
  plugin_name :: string
  plugin_func :: plugin_outcome

text \<open>
  The state: the statics of class \<^verbatim>\<open>OS\<close> that the file reads or writes, the memory
  map, the statistics registry (\<open>statman\<close>: the names of the counters created, in slot
  order; \<open>cells\<close>: the 64-bit value stored in each slot), the two file-scope pointers
  \<^verbatim>\<open>os_cycles_hlt\<close> and \<^verbatim>\<open>os_cycles_total\<close> (\<open>None\<close> is \<^verbatim>\<open>nullptr\<close>, \<open>Some i\<close>
  points to slot \<open>i\<close>), and the trace.
\<close>

record 'p os =
  high_memory_size :: 'p
  memory_end :: 'p
  heap_max :: 'p
  boot_sequence_passed :: bool
  power :: bool
  memmap :: "'p range list"
  statman :: "string list"
  cells :: "nat \<Rightarrow> u64"
  os_cycles_hlt :: "nat option"
  os_cycles_total :: "nat option"
  trace :: "'p event list"

text \<open>
  What the file takes from outside: the multiboot signature (a constant of
  \<^verbatim>\<open>boot/multiboot.h\<close>), the soft-reset signature test, the stack pointer, the linker
  symbols \<^verbatim>\<open>_LOAD_START_\<close> and \<^verbatim>\<open>_end\<close>, the global \<^verbatim>\<open>heap_begin\<close>, the plugin list,
  and the high-memory size each probing path discovers.
\<close>

record 'p env =
  MULTIBOOT_BOOTLOADER_MAGIC :: u32
  is_softreset_magic :: "u32 \<Rightarrow> bool"
  multiboot_probe :: "u32 \<Rightarrow> 'p"
  legacy_probe :: 'p
  cpu_esp :: 'p
  LOAD_START :: 'p
  end_symbol :: 'p
  heap_begin :: 'p
  plugins :: "plugin list"

subsection \<open>Sequencing with abort\<close>

text \<open>A statement either continues with a new state (\<open>Inr\<close>) or aborts the process
  (\<open>Inl\<close>, with the state at the abort). \<open>seq\<close> runs statements in order and stops at
  the first abort.\<close>

type_synonym 'p stmt = "'p os \<Rightarrow> (error \<times> 'p os) + 'p os"

fun seq :: "'p stmt list \<Rightarrow> 'p stmt" where
  "seq [] s = Inr s"
| "seq (f # fs) s = (case f s of Inl e \<Rightarrow> Inl e | Inr s' \<Rightarrow> seq fs s')"

definition emit :: "'p event \<Rightarrow> 'p stmt" where
  "emit ev s = Inr (s\<lparr>trace := trace s @ [ev]\<rparr>)"

definition skip :: "'p stmt" where
  "skip s = Inr s"

text \<open>Modelled from the spec: the \<^verbatim>\<open>Expects\<close> macro is not in the file; a violated
  expectation aborts the process with FatalInvariantViolation.\<close>

definition Expects :: "('p os \<Rightarrow> bool) \<Rightarrow> 'p stmt" where
  "Expects c s = (if c s then Inr s else Inl (FatalInvariantViolation, s))"

definition final_state :: "(error \<times> 'p os) + 'p os \<Rightarrow> 'p os" where
  "final_state r = (case r of Inl (e, s) \<Rightarrow> s | Inr s \<Rightarrow> s)"

definition completed :: "(error \<times> 'p os) + 'p os \<Rightarrow> bool" where
  "completed r = (case r of Inl e \<Rightarrow> False | Inr s \<Rightarrow> True)"

definition aborted_with :: "error \<Rightarrow> (error \<times> 'p os) + 'p os \<Rightarrow> bool" where
  "aborted_with e r = (case r of Inl (e', s) \<Rightarrow> e' = e | Inr s \<Rightarrow> False)"

subsection \<open>Collaborators\<close>

text \<open>Modelled from the spec: the memory range registry (\<^verbatim>\<open>Memory_map\<close>) is not in
  the file. Its contract: \<^verbatim>\<open>assign_range\<close> rejects, fatally, a range with
  \<open>start > end\<close> or one that overlaps a range assigned before; accepted ranges are kept
  in assignment order.\<close>

definition overlaps :: "('a::len) word range \<Rightarrow> 'a word range \<Rightarrow> bool" where
  "overlaps r q \<longleftrightarrow> r_start r \<le> r_end q \<and> r_start q \<le> r_end r"

text \<open>Modelled from the spec: \<^verbatim>\<open>Memory_map::assign_range\<close>, which is not in the file,
  with the contract above. The call is recorded in the trace whether the range is
  accepted or rejected.\<close>

definition assign_range :: "('a::len) word range \<Rightarrow> 'a word stmt" where
  "assign_range r s =
     (let s1 = s\<lparr>trace := trace s @ [EvAssign_range r]\<rparr> in
      if r_end r < r_start r \<or> list_ex (overlaps r) (memmap s1)
      then Inl (FatalInvariantViolation, s1)
      else Inr (s1\<lparr>memmap := memmap s1 @ [r]\<rparr>))"

text \<open>Modelled from the spec: the diagnostics registry (\<^verbatim>\<open>Statman\<close>) is not in the
  file. \<^verbatim>\<open>init\<close> sets it up empty at a fixed place; \<^verbatim>\<open>create\<close> adds a counter in
  the next slot, starting at zero, and returns a reference to it that stays valid.\<close>

definition statman_init :: "'p \<Rightarrow> 'p \<Rightarrow> 'p stmt" where
  "statman_init base sz s =
     Inr (s\<lparr>statman := [], trace := trace s @ [EvStatman_init base sz]\<rparr>)"

text \<open>Modelled from the spec: \<^verbatim>\<open>Statman::create(Stat::UINT64, name).get_uint64()\<close>,
  which is not in the file: the slot of the new counter, and the state with the counter
  added.\<close>

definition statman_create :: "string \<Rightarrow> 'p os \<Rightarrow> nat \<times> 'p os" where
  "statman_create name s =
     (let slot = length (statman s) in
      (slot, s\<lparr>statman := statman s @ [name],
               cells := (cells s)(slot := 0),
               trace := trace s @ [EvStatman_create name]\<rparr>))"

text \<open>Modelled from the spec: the probing paths are not in the file. Multiboot
  probing and legacy probing each discover the high-memory size; the soft-reset resume
  path restores session state and leaves the memory size to the legacy probing that
  follows it.\<close>

definition multiboot :: "'p env \<Rightarrow> u32 \<Rightarrow> 'p stmt" where
  "multiboot env boot_addr s =
     Inr (s\<lparr>high_memory_size := multiboot_probe env boot_addr,
             trace := trace s @ [EvMultiboot boot_addr]\<rparr>)"

text \<open>Modelled from the spec: \<^verbatim>\<open>OS::resume_softreset\<close>, which is not in the file;
  only the call is recorded.\<close>

definition resume_softreset :: "u32 \<Rightarrow> 'p stmt" where
  "resume_softreset boot_addr = emit (EvResume_softreset boot_addr)"

text \<open>Modelled from the spec: \<^verbatim>\<open>OS::legacy_boot\<close>, which is not in the file; it
  sets the high-memory size it discovers.\<close>

definition legacy_boot :: "'p env \<Rightarrow> 'p stmt" where
  "legacy_boot env s =
     Inr (s\<lparr>high_memory_size := legacy_probe env,
             trace := trace s @ [EvLegacy_boot]\<rparr>)"

subsection \<open>\<^verbatim>\<open>OS::halt\<close>\<close>

text \<open>
  \<^verbatim>\<open>
  void OS::halt() {
    *os_cycles_total = cycles_since_boot();
    asm volatile("hlt");
    if (os_cycles_hlt)
        *os_cycles_hlt += cycles_since_boot() - *os_cycles_total;
  }
  \<close>
  The two readings of \<^verbatim>\<open>cycles_since_boot()\<close>, before the processor halts and after
  it wakes, are arguments. The first store goes through \<^verbatim>\<open>os_cycles_total\<close> with no
  test; the update of the halted cycles is guarded. The subtraction reads the slot
  \<^verbatim>\<open>os_cycles_total\<close> points to, after the store.
\<close>

definition halt :: "u64 \<Rightarrow> u64 \<Rightarrow> 'p stmt" where
  "halt cycles_before cycles_after s =
     (case os_cycles_total s of
        None \<Rightarrow> Inl (NullPointerDereference, s)
      | Some t \<Rightarrow>
          (let s1 = s\<lparr>cells := (cells s)(t := cycles_before)\<rparr>;
               s2 = s1\<lparr>trace := trace s1 @ [EvHlt]\<rparr>
           in case os_cycles_hlt s2 of
                None \<Rightarrow> Inr s2
              | Some h \<Rightarrow>
                  Inr (s2\<lparr>cells := (cells s2)(h := cells s2 h + (cycles_after - cells s2 t))\<rparr>)))"

subsection \<open>\<^verbatim>\<open>OS::start\<close>\<close>

text \<open>Lines 117-125: detection of the boot type.\<close>

definition detect_boot :: "'p env \<Rightarrow> u32 \<Rightarrow> u32 \<Rightarrow> 'p stmt" where
  "detect_boot env boot_magic boot_addr =
     (if boot_magic = MULTIBOOT_BOOTLOADER_MAGIC env then multiboot env boot_addr
      else seq [if is_softreset_magic env boot_magic \<and> boot_addr \<noteq> 0
                then resume_softreset boot_addr else skip,
                legacy_boot env])"

text \<open>Line 132.\<close>

definition set_memory_end :: "('a::len) word stmt" where
  "set_memory_end s = Inr (s\<lparr>memory_end := high_memory_size s + 0x100000\<rparr>)"

text \<open>Line 146. The literal \<^verbatim>\<open>0xffff0000\<close> has type \<^verbatim>\<open>unsigned int\<close>; converted to
  \<^verbatim>\<open>uintptr_t\<close> it keeps its value, so its bits above bit 31 are zero whatever the
  width of the address.\<close>

definition compute_heap_max :: "('a::len) word \<Rightarrow> 'a word" where
  "compute_heap_max hms = ((0x100000 + hms) AND 0xffff0000) - 1"

definition set_heap_max :: "('a::len) word stmt" where
  "set_heap_max s = Inr (s\<lparr>heap_max := compute_heap_max (high_memory_size s)\<rparr>)"

text \<open>Line 148: \<^verbatim>\<open>std::numeric_limits<std::ptrdiff_t>::max()\<close> as a \<^verbatim>\<open>uintptr_t\<close>.\<close>

definition span_max :: "('a::len) word" where
  "span_max = 2 ^ (LENGTH('a) - 1) - 1"

text \<open>Lines 149-153: the heap range, built from the value \<^verbatim>\<open>heap_max_\<close> has then;
  \<^verbatim>\<open>std::min\<close> compares the two unsigned words.\<close>

definition heap_range :: "('a::len) word env \<Rightarrow> 'a word \<Rightarrow> 'a word range" where
  "heap_range env hmax =
     \<lparr>r_start = heap_begin env, r_end = min span_max hmax,
      r_name = ''Heap'', r_desc = ''Dynamic memory'', r_in_use = Some ''heap_usage''\<rparr>"

definition assign_heap_range :: "('a::len) word env \<Rightarrow> 'a word stmt" where
  "assign_heap_range env s = assign_range (heap_range env (heap_max s)) s"

text \<open>Lines 157-158: one line per range of the memory map.\<close>

definition print_memmap :: "'p stmt" where
  "print_memmap s =
     Inr (s\<lparr>trace := trace s @ map (\<lambda>r. EvINFO2 ''* %s'' [ARange r]) (memmap s)\<rparr>)"

text \<open>Lines 163-166: the two counters are created and the file-scope pointers set.\<close>

definition create_os_cycles_hlt :: "'p stmt" where
  "create_os_cycles_hlt s =
     (case statman_create ''cpu0.cycles_hlt'' s of
        (slot, s') \<Rightarrow> Inr (s'\<lparr>os_cycles_hlt := Some slot\<rparr>))"

definition create_os_cycles_total :: "'p stmt" where
  "create_os_cycles_total s =
     (case statman_create ''cpu0.cycles_total'' s of
        (slot, s') \<Rightarrow> Inr (s'\<lparr>os_cycles_total := Some slot\<rparr>))"

text \<open>Lines 189-198: the plugin loop. Whatever the plugin throws is caught; the
  loop goes on with the next plugin.\<close>

definition init_plugin :: "plugin \<Rightarrow> 'p event list" where
  "init_plugin p =
     [EvINFO2 ''* Initializing %s'' [AStr (plugin_name p)], EvPlugin_func (plugin_name p)] @
     (case plugin_func p of
        Returns \<Rightarrow> []
      | Throws_std_exception what \<Rightarrow>
          [EvMYINFO ''Exception thrown when initializing plugin: %s'' [AStr what]]
      | Throws_other \<Rightarrow>
          [EvMYINFO ''Unknown exception when initializing plugin'' []])"

fun init_plugins :: "plugin list \<Rightarrow> 'p stmt" where
  "init_plugins [] s = Inr s"
| "init_plugins (p # ps) s = init_plugins ps (s\<lparr>trace := trace s @ init_plugin p\<rparr>)"

text \<open>Line 186.\<close>

definition set_boot_sequence_passed :: "'p stmt" where
  "set_boot_sequence_passed s = Inr (s\<lparr>boot_sequence_passed := True\<rparr>)"

text \<open>The whole of \<^verbatim>\<open>OS::start\<close>, statement by statement. The \<^verbatim>\<open>PROFILE\<close> macros
  expand to nothing (\<^verbatim>\<open>ENABLE_PROFILERS\<close> is not defined); the banner of lines 202-207 is
  one event. The calls into the platform, the clock, the random number generator, the
  service and the sanity checks are events only: what they do is outside the file.\<close>

definition start :: "('a::len) word env \<Rightarrow> u32 \<Rightarrow> u32 \<Rightarrow> 'a word stmt" where
  "start env boot_magic boot_addr = seq
     [emit (EvCAPTION ''#include<os> // Literally''),
      emit (EvMYINFO ''Stack: %p'' [APtr (cpu_esp env)]),
      emit (EvMYINFO ''Boot magic: 0x%x, addr: 0x%x'' [AU32 boot_magic, AU32 boot_addr]),
      statman_init 0x6000 0x3000,
      detect_boot env boot_magic boot_addr,
      Expects (\<lambda>s. high_memory_size s \<noteq> 0),
      set_memory_end,
      emit (EvMYINFO ''Assigning fixed memory ranges (Memory map)'' []),
      assign_range \<lparr>r_start = 0x6000, r_end = 0x8fff,
        r_name = ''Statman'', r_desc = ''Statistics'', r_in_use = None\<rparr>,
      assign_range \<lparr>r_start = 0xA000, r_end = 0x9fbff,
        r_name = ''Stack'', r_desc = ''Kernel / service main stack'', r_in_use = None\<rparr>,
      assign_range \<lparr>r_start = LOAD_START env, r_end = end_symbol env,
        r_name = ''ELF'', r_desc = ''Your service binary including OS'', r_in_use = None\<rparr>,
      Expects (\<lambda>s. heap_begin env \<noteq> 0 \<and> heap_max s \<noteq> 0),
      assign_range \<lparr>r_start = end_symbol env + 1, r_end = heap_begin env - 1,
        r_name = ''Pre-heap'', r_desc = ''Heap randomization area'', r_in_use = None\<rparr>,
      set_heap_max,
      emit (EvMYINFO ''Assigning heap'' []),
      assign_heap_range env,
      emit (EvMYINFO ''Printing memory map'' []),
      print_memmap,
      create_os_cycles_hlt,
      create_os_cycles_total,
      emit EvPlatform_init,
      emit EvRTC_init,
      emit (EvMYINFO ''Initializing RNG'' []),
      emit EvRNG_init,
      emit EvSrand,
      emit (EvMYINFO ''Initializing plugins'' []),
      set_boot_sequence_passed,
      init_plugins (plugins env),
      emit EvBanner,
      emit EvService_start,
      emit EvKernel_sanity_checks]"

subsection \<open>\<^verbatim>\<open>OS::event_loop\<close>\<close>

text \<open>
  \<^verbatim>\<open>
  void OS::event_loop() {
    IRQ_manager::get().process_interrupts();
    do {
      OS::halt();
      IRQ_manager::get().process_interrupts();
    } while (power_);
    Service::stop();
    __arch_poweroff();
  }
  \<close>
  The processor wakes from \<^verbatim>\<open>hlt\<close> only when an interrupt arrives. The interrupts
  that arrive are the input: one \<open>wake\<close> per interrupt, with the two cycle readings
  \<^verbatim>\<open>halt\<close> takes around it and the value \<^verbatim>\<open>power_\<close> has when the loop tests it after
  the handlers have run. When no interrupt is left the processor stays halted and the
  function does not return: \<open>None\<close>.
\<close>

record wake =
  cycles_at_halt :: u64
  cycles_at_wake :: u64
  power_after :: bool

text \<open>Modelled from the spec: \<^verbatim>\<open>IRQ_manager::process_interrupts\<close>, which is not in the
  file. The handlers it dispatches may change \<^verbatim>\<open>power_\<close>; the first argument is the
  value the flag has when the call returns.\<close>

definition process_interrupts :: "bool \<Rightarrow> 'p os \<Rightarrow> 'p os" where
  "process_interrupts pw s = s\<lparr>power := pw, trace := trace s @ [EvProcess_interrupts]\<rparr>"

fun event_loop_body :: "wake list \<Rightarrow> 'p os \<Rightarrow> ((error \<times> 'p os) + 'p os) option" where
  "event_loop_body [] s = None"
| "event_loop_body (w # ws) s =
     (case halt (cycles_at_halt w) (cycles_at_wake w) s of
        Inl e \<Rightarrow> Some (Inl e)
      | Inr s1 \<Rightarrow>
          (let s2 = process_interrupts (power_after w) s1 in
           if power s2 then event_loop_body ws s2 else Some (Inr s2)))"

definition event_loop :: "wake list \<Rightarrow> 'p os \<Rightarrow> ((error \<times> 'p os) + 'p os) option" where
  "event_loop ws s =
     (case event_loop_body ws (process_interrupts (power s) s) of
        None \<Rightarrow> None
      | Some (Inl e) \<Rightarrow> Some (Inl e)
      | Some (Inr s') \<Rightarrow>
          Some (seq [emit (EvMYINFO ''Stopping service'' []),
                     emit EvService_stop,
                     emit (EvMYINFO ''Powering off'' []),
                     emit EvArch_poweroff] s'))"

subsection \<open>Observations on a run\<close>

text \<open>The ranges a run adds to the memory map and the events it adds to the trace.\<close>

definition registered_by :: "'p os \<Rightarrow> (error \<times> 'p os) + 'p os \<Rightarrow> 'p range list" where
  "registered_by s r = drop (length (memmap s)) (memmap (final_state r))"

definition events_of :: "'p os \<Rightarrow> (error \<times> 'p os) + 'p os \<Rightarrow> 'p event list" where
  "events_of s r = drop (length (trace s)) (trace (final_state r))"

text \<open>The high-memory size that \<open>detect_boot\<close> leaves in the state (lemma
  \<open>detect_boot_eq\<close> below).\<close>

definition discovered_high_memory :: "'p env \<Rightarrow> u32 \<Rightarrow> u32 \<Rightarrow> 'p" where
  "discovered_high_memory env boot_magic boot_addr =
     (if boot_magic = MULTIBOOT_BOOTLOADER_MAGIC env then multiboot_probe env boot_addr
      else legacy_probe env)"

text \<open>Weakest precondition of a statement: \<open>Q\<close> is to hold if it continues, \<open>E\<close> if
  it aborts.\<close>

definition wp :: "'p stmt \<Rightarrow> ('p os \<Rightarrow> bool) \<Rightarrow> (error \<Rightarrow> 'p os \<Rightarrow> bool) \<Rightarrow> 'p os \<Rightarrow> bool" where
  "wp f Q E s = (case f s of Inl (e, s') \<Rightarrow> E e s' | Inr s' \<Rightarrow> Q s')"

text \<open>The probing calls \<open>detect_boot\<close> makes, in order (lemma \<open>detect_boot_eq\<close>).\<close>

definition probing_events :: "'p env \<Rightarrow> u32 \<Rightarrow> u32 \<Rightarrow> 'p event list" where
  "probing_events env boot_magic boot_addr =
     (if boot_magic = MULTIBOOT_BOOTLOADER_MAGIC env then [EvMultiboot boot_addr]
      else if is_softreset_magic env boot_magic \<and> boot_addr \<noteq> 0
           then [EvResume_softreset boot_addr, EvLegacy_boot]
           else [EvLegacy_boot])"

fun is_probe :: "'p event \<Rightarrow> bool" where
  "is_probe (EvMultiboot a) = True"
| "is_probe (EvResume_softreset a) = True"
| "is_probe EvLegacy_boot = True"
| "is_probe e = False"

text \<open>The invariants of the memory map: no range is inverted, and no two ranges (at
  different positions) overlap. The fixed order of the layout, by category label.\<close>

definition valid_ranges :: "('a::len) word range list \<Rightarrow> bool" where
  "valid_ranges m \<longleftrightarrow> (\<forall>r\<in>set m. r_start r \<le> r_end r)"

definition disjoint_ranges :: "('a::len) word range list \<Rightarrow> bool" where
  "disjoint_ranges m \<longleftrightarrow>
     (\<forall>i<length m. \<forall>j<length m. i \<noteq> j \<longrightarrow> \<not> overlaps (m ! i) (m ! j))"

definition layout_order :: "string list" where
  "layout_order = [''Statman'', ''Stack'', ''ELF'', ''Pre-heap'', ''Heap'']"

text \<open>A statement preserves an invariant of the state, whether it continues or
  aborts.\<close>

definition preserves :: "('p os \<Rightarrow> bool) \<Rightarrow> 'p stmt \<Rightarrow> bool" where
  "preserves I f \<longleftrightarrow> (\<forall>s. I s \<longrightarrow> I (final_state (f s)))"

definition ranges_inv :: "nat \<Rightarrow> ('a::len) word os \<Rightarrow> bool" where
  "ranges_inv n s \<longleftrightarrow>
     n \<le> length (memmap s) \<and> valid_ranges (drop n (memmap s)) \<and>
     disjoint_ranges (drop n (memmap s))"

text \<open>The events at which the processor halts or may halt: \<^verbatim>\<open>hlt\<close> itself, and
  the calls \<open>start\<close> makes from line 170 on into code outside the file (the note
  at line 162 asks for the counters to exist before anything that calls
  \<^verbatim>\<open>OS::halt\<close>).\<close>

fun can_halt :: "'p event \<Rightarrow> bool" where
  "can_halt EvHlt = True"
| "can_halt EvPlatform_init = True"
| "can_halt EvRTC_init = True"
| "can_halt EvRNG_init = True"
| "can_halt EvSrand = True"
| "can_halt (EvPlugin_func n) = True"
| "can_halt EvService_start = True"
| "can_halt EvKernel_sanity_checks = True"
| "can_halt e = False"

definition key_event :: "'p event \<Rightarrow> bool" where
  "key_event e \<longleftrightarrow> can_halt e \<or> e = EvStatman_create ''cpu0.cycles_hlt'' \<or>
     e = EvStatman_create ''cpu0.cycles_total''"

text \<open>Calls of plugin initializers, and the two messages of the \<^verbatim>\<open>catch\<close> clauses.\<close>

fun is_plugin_call :: "'p event \<Rightarrow> bool" where
  "is_plugin_call (EvPlugin_func n) = True"
| "is_plugin_call e = False"

fun is_failure_log :: "'p event \<Rightarrow> bool" where
  "is_failure_log (EvMYINFO f a) \<longleftrightarrow>
     f = ''Exception thrown when initializing plugin: %s'' \<or>
     f = ''Unknown exception when initializing plugin''"
| "is_failure_log e = False"

text \<open>A boot on a 64-bit target, used to instantiate the theorems: 127 MiB of high
  memory reported by multiboot, 63 MiB by the legacy path, an image at 2 MiB.\<close>

definition demo_env :: "64 word env" where
  "demo_env =
     \<lparr>MULTIBOOT_BOOTLOADER_MAGIC = 0x2BADB002,
      is_softreset_magic = (\<lambda>m. m = 0xFEE1DEAD),
      multiboot_probe = (\<lambda>a. 0x7f00000),
      legacy_probe = 0x3f00000,
      cpu_esp = 0x9f000,
      LOAD_START = 0x200000,
      end_symbol = 0x2fffff,
      heap_begin = 0x301000,
      plugins = [\<lparr>plugin_name = ''a'', plugin_func = Returns\<rparr>,
                 \<lparr>plugin_name = ''b'', plugin_func = Throws_std_exception ''boom''\<rparr>]\<rparr>"

text \<open>A boot on a 32-bit target with 3 GiB of memory.\<close>

definition demo_env32 :: "32 word env" where
  "demo_env32 =
     \<lparr>MULTIBOOT_BOOTLOADER_MAGIC = 0x2BADB002,
      is_softreset_magic = (\<lambda>m. m = 0xFEE1DEAD),
      multiboot_probe = (\<lambda>a. 0xbff00000),
      legacy_probe = 0x3f00000,
      cpu_esp = 0x9f000,
      LOAD_START = 0x200000,
      end_symbol = 0x2fffff,
      heap_begin = 0x301000,
      plugins = []\<rparr>"

text \<open>The state on entry: nothing registered, no counter, an empty trace.\<close>

definition demo_state :: "('a::len) word os" where
  "demo_state =
     \<lparr>high_memory_size = 0, memory_end = 0, heap_max = 0xfffffff,
      boot_sequence_passed = False, power = True, memmap = [], statman = [],
      cells = (\<lambda>_. 0), os_cycles_hlt = None, os_cycles_total = None, trace = []\<rparr>"

section \<open>Properties\<close>

subsection \<open>Symbolic execution\<close>

lemma wp_seq_Nil: "wp (seq []) Q E s = Q s"
  by (simp add: wp_def)

lemma wp_seq_Cons: "wp (seq (f # fs)) Q E s = wp f (wp (seq fs) Q E) E s"
  by (simp add: wp_def split: sum.splits prod.splits)

lemma wp_emit: "wp (emit ev) Q E s = Q (s\<lparr>trace := trace s @ [ev]\<rparr>)"
  by (simp add: wp_def emit_def)

lemma wp_statman_init:
  "wp (statman_init b z) Q E s = Q (s\<lparr>statman := [], trace := trace s @ [EvStatman_init b z]\<rparr>)"
  by (simp add: wp_def statman_init_def)

lemma detect_boot_eq:
  "detect_boot env bm ba s =
     Inr (s\<lparr>high_memory_size := discovered_high_memory env bm ba,
             trace := trace s @ probing_events env bm ba\<rparr>)"
  by (simp add: detect_boot_def multiboot_def legacy_boot_def resume_softreset_def emit_def
      skip_def discovered_high_memory_def probing_events_def)

lemma wp_detect_boot:
  "wp (detect_boot env bm ba) Q E s =
     Q (s\<lparr>high_memory_size := discovered_high_memory env bm ba,
           trace := trace s @ probing_events env bm ba\<rparr>)"
  by (simp add: wp_def detect_boot_eq)

lemma wp_Expects: "wp (Expects c) Q E s = (if c s then Q s else E FatalInvariantViolation s)"
  by (simp add: wp_def Expects_def)

lemma wp_set_memory_end:
  "wp set_memory_end Q E s = Q (s\<lparr>memory_end := high_memory_size s + 0x100000\<rparr>)"
  by (simp add: wp_def set_memory_end_def)

lemma wp_set_heap_max:
  "wp set_heap_max Q E s = Q (s\<lparr>heap_max := compute_heap_max (high_memory_size s)\<rparr>)"
  by (simp add: wp_def set_heap_max_def)

lemma wp_assign_range:
  "wp (assign_range r) Q E s =
     (if r_end r < r_start r \<or> list_ex (overlaps r) (memmap s)
      then E FatalInvariantViolation (s\<lparr>trace := trace s @ [EvAssign_range r]\<rparr>)
      else Q (s\<lparr>trace := trace s @ [EvAssign_range r], memmap := memmap s @ [r]\<rparr>))"
  by (simp add: wp_def assign_range_def Let_def)

lemma wp_assign_heap_range:
  "wp (assign_heap_range env) Q E s = wp (assign_range (heap_range env (heap_max s))) Q E s"
  by (simp add: wp_def assign_heap_range_def)

lemma wp_print_memmap:
  "wp print_memmap Q E s =
     Q (s\<lparr>trace := trace s @ map (\<lambda>r. EvINFO2 ''* %s'' [ARange r]) (memmap s)\<rparr>)"
  by (simp add: wp_def print_memmap_def)

lemma wp_create_os_cycles_hlt:
  "wp create_os_cycles_hlt Q E s =
     Q (s\<lparr>statman := statman s @ [''cpu0.cycles_hlt''],
           cells := (cells s)(length (statman s) := 0),
           trace := trace s @ [EvStatman_create ''cpu0.cycles_hlt''],
           os_cycles_hlt := Some (length (statman s))\<rparr>)"
  by (simp add: wp_def create_os_cycles_hlt_def statman_create_def Let_def)

lemma wp_create_os_cycles_total:
  "wp create_os_cycles_total Q E s =
     Q (s\<lparr>statman := statman s @ [''cpu0.cycles_total''],
           cells := (cells s)(length (statman s) := 0),
           trace := trace s @ [EvStatman_create ''cpu0.cycles_total''],
           os_cycles_total := Some (length (statman s))\<rparr>)"
  by (simp add: wp_def create_os_cycles_total_def statman_create_def Let_def)

lemma wp_set_boot_sequence_passed:
  "wp set_boot_sequence_passed Q E s = Q (s\<lparr>boot_sequence_passed := True\<rparr>)"
  by (simp add: wp_def set_boot_sequence_passed_def)

lemma init_plugins_eq:
  "init_plugins ps s = Inr (s\<lparr>trace := trace s @ concat (map init_plugin ps)\<rparr>)"
  by (induction ps arbitrary: s) simp_all

lemma wp_init_plugins:
  "wp (init_plugins ps) Q E s = Q (s\<lparr>trace := trace s @ concat (map init_plugin ps)\<rparr>)"
  by (simp add: wp_def init_plugins_eq)

lemmas wp_rules = wp_seq_Nil wp_seq_Cons wp_emit wp_statman_init wp_detect_boot wp_Expects
  wp_set_memory_end wp_set_heap_max wp_assign_range wp_assign_heap_range wp_print_memmap
  wp_create_os_cycles_hlt wp_create_os_cycles_total wp_set_boot_sequence_passed wp_init_plugins

text \<open>Three ways to read a property of a run off its weakest precondition.\<close>

lemma final_state_wp: "P (final_state (f s)) \<longleftrightarrow> wp f P (\<lambda>e. P) s"
  by (simp add: wp_def final_state_def split: sum.splits prod.splits)

lemma completed_wp: "(completed (f s) \<longrightarrow> P (final_state (f s))) \<longleftrightarrow> wp f P (\<lambda>e s'. True) s"
  by (simp add: wp_def final_state_def completed_def split: sum.splits prod.splits)

lemma aborted_wp:
  "aborted_with e (f s) \<and> P (final_state (f s)) \<longleftrightarrow> wp f (\<lambda>s'. False) (\<lambda>e' s'. e' = e \<and> P s') s"
  by (simp add: wp_def final_state_def aborted_with_def split: sum.splits prod.splits)

subsection \<open>Invariants of the memory map\<close>

lemma preserves_seq: "list_all (preserves I) fs \<Longrightarrow> preserves I (seq fs)"
proof (induction fs)
  case Nil
  show ?case by (simp add: preserves_def final_state_def)
next
  case (Cons f fs)
  then have f: "preserves I f" and fs: "preserves I (seq fs)" by simp_all
  show ?case
    unfolding preserves_def
  proof (intro allI impI)
    fix s assume "I s"
    with f have *: "I (final_state (f s))" by (simp add: preserves_def)
    show "I (final_state (seq (f # fs) s))"
    proof (cases "f s")
      case (Inl e)
      with * show ?thesis by (simp add: final_state_def)
    next
      case (Inr s')
      with * have "I s'" by (simp add: final_state_def)
      with fs Inr show ?thesis by (simp add: preserves_def)
    qed
  qed
qed

lemma preserves_wp: "preserves I f \<longleftrightarrow> (\<forall>s. I s \<longrightarrow> wp f I (\<lambda>e. I) s)"
  using final_state_wp [of I f] by (simp add: preserves_def)

lemma overlaps_sym: "overlaps r q \<longleftrightarrow> overlaps q r"
  by (auto simp: overlaps_def)

lemma disjoint_ranges_snoc:
  assumes "disjoint_ranges m" and "\<not> list_ex (overlaps r) m"
  shows "disjoint_ranges (m @ [r])"
proof -
  from assms(2) have no: "\<And>i. i < length m \<Longrightarrow> \<not> overlaps r (m ! i)"
    by (auto simp: list_ex_iff)
  then have no': "\<And>i. i < length m \<Longrightarrow> \<not> overlaps (m ! i) r"
    using overlaps_sym by blast
  show ?thesis
    unfolding disjoint_ranges_def
  proof (intro allI impI)
    fix i j assume ij: "i < length (m @ [r])" "j < length (m @ [r])" "i \<noteq> j"
    consider "i < length m" "j < length m" | "i = length m" "j < length m"
      | "i < length m" "j = length m"
      using ij by fastforce
    then show "\<not> overlaps ((m @ [r]) ! i) ((m @ [r]) ! j)"
    proof cases
      case 1
      with assms(1) ij show ?thesis by (simp add: disjoint_ranges_def nth_append)
    next
      case 2
      with no show ?thesis by (simp add: nth_append)
    next
      case 3
      with no' show ?thesis by (simp add: nth_append)
    qed
  qed
qed

lemma list_ex_drop: "list_ex P (drop n m) \<Longrightarrow> list_ex P m"
  by (auto simp: list_ex_iff dest: in_set_dropD)

lemma ranges_inv_assign_range: "preserves (ranges_inv n) (assign_range r)"
  unfolding preserves_wp wp_assign_range
  by (auto simp: ranges_inv_def valid_ranges_def not_less intro: disjoint_ranges_snoc dest: list_ex_drop)

lemma ranges_inv_assign_heap_range: "preserves (ranges_inv n) (assign_heap_range env)"
  using ranges_inv_assign_range [of n]
  by (auto simp: preserves_def assign_heap_range_def)

lemma ranges_inv_start: "preserves (ranges_inv n) (start env bm ba)"
  unfolding start_def
  by (rule preserves_seq)
     (simp add: ranges_inv_assign_range ranges_inv_assign_heap_range,
      simp add: preserves_wp wp_rules ranges_inv_def)

subsection \<open>\<^verbatim>\<open>OS::halt\<close>\<close>

text \<open>
  C10. \<open>halt\<close> stores the first cycle reading through \<^verbatim>\<open>os_cycles_total\<close> without
  testing the pointer (with a null pointer the store is a null dereference), and
  tests \<^verbatim>\<open>os_cycles_hlt\<close> before it updates the halted cycles. When
  \<^verbatim>\<open>os_cycles_total\<close> points to slot \<open>t\<close> and \<^verbatim>\<open>os_cycles_hlt\<close> does not point to the
  same slot (after the registration in \<open>start\<close> they point to the two different
  slots 0 and 1), \<open>halt\<close> returns, slot \<open>t\<close> holds the reading taken before the halt,
  and: if \<^verbatim>\<open>os_cycles_hlt\<close> points to slot \<open>h\<close>, that slot has grown by exactly the
  reading at wake minus the checkpoint (in 64-bit arithmetic) and no other slot has
  changed; if \<^verbatim>\<open>os_cycles_hlt\<close> is null, no slot but \<open>t\<close> has changed. The pointers
  stay as they are.
\<close>

theorem halt_counters:
  "(os_cycles_total s = None \<longrightarrow> halt c w s = Inl (NullPointerDereference, s)) \<and>
   (\<forall>t. os_cycles_total s = Some t \<and> os_cycles_hlt s \<noteq> Some t \<longrightarrow>
      (\<exists>s'. halt c w s = Inr s' \<and>
         cells s' t = c \<and>
         (case os_cycles_hlt s of
            Some h \<Rightarrow> cells s' h = cells s h + (w - c) \<and>
                      (\<forall>i. i \<noteq> t \<and> i \<noteq> h \<longrightarrow> cells s' i = cells s i)
          | None \<Rightarrow> (\<forall>i. i \<noteq> t \<longrightarrow> cells s' i = cells s i)) \<and>
         os_cycles_hlt s' = os_cycles_hlt s \<and> os_cycles_total s' = os_cycles_total s \<and>
         trace s' = trace s @ [EvHlt]))"
  by (cases "os_cycles_hlt s") (auto simp: halt_def Let_def)

theorem halt_counters_witness:
  "(\<exists>s'. halt 100 130 (demo_state\<lparr>os_cycles_hlt := Some 0, os_cycles_total := Some 1,
                                       cells := (\<lambda>_. 7)\<rparr> :: 64 word os) = Inr s' \<and>
          cells s' 1 = 100 \<and> cells s' 0 = 37) \<and>
   (\<exists>s'. halt 100 130 (demo_state\<lparr>os_cycles_hlt := None, os_cycles_total := Some 1,
                                       cells := (\<lambda>_. 7)\<rparr> :: 64 word os) = Inr s' \<and>
          cells s' 1 = 100 \<and> cells s' 0 = 7) \<and>
   halt 100 130 (demo_state :: 64 word os) = Inl (NullPointerDereference, demo_state)"
  using halt_counters [of "demo_state\<lparr>os_cycles_hlt := Some 0, os_cycles_total := Some 1,
                                       cells := (\<lambda>_. 7)\<rparr>" 100 130]
        halt_counters [of "demo_state\<lparr>os_cycles_hlt := None, os_cycles_total := Some 1,
                                       cells := (\<lambda>_. 7)\<rparr>" 100 130]
        halt_counters [of "demo_state :: 64 word os" 100 130]
  by (auto simp: demo_state_def)

subsection \<open>\<^verbatim>\<open>OS::start\<close>: boot-type detection\<close>

lemma filter_is_probe_plugins: "filter is_probe (concat (map init_plugin ps)) = []"
  by (induction ps) (auto simp: init_plugin_def split: plugin_outcome.splits)

lemma filter_is_probe_memmap: "filter is_probe (map (\<lambda>r. EvINFO2 f [ARange r]) m) = []"
  by (induction m) auto

lemma filter_is_probe_probing:
  "filter is_probe (probing_events env bm ba) = probing_events env bm ba"
  by (simp add: probing_events_def)

text \<open>
  C5. The probing calls a run of \<open>start\<close> makes, in order, whatever happens later in
  the run: with the multiboot signature, the multiboot probing alone; otherwise, with
  a soft-reset signature and a non-zero boot address, the soft-reset resume and then
  the legacy probing; in every other case the legacy probing alone.
\<close>

theorem boot_type_detection:
  "filter is_probe (events_of s (start env boot_magic boot_addr s)) =
     (if boot_magic = MULTIBOOT_BOOTLOADER_MAGIC env then [EvMultiboot boot_addr]
      else if is_softreset_magic env boot_magic \<and> boot_addr \<noteq> 0
           then [EvResume_softreset boot_addr, EvLegacy_boot]
           else [EvLegacy_boot])"
proof -
  let ?P = "\<lambda>s'. filter is_probe (drop (length (trace s)) (trace s')) =
                  probing_events env boot_magic boot_addr"
  have "wp (start env boot_magic boot_addr) ?P (\<lambda>e. ?P) s"
    by (simp add: start_def wp_rules filter_is_probe_plugins filter_is_probe_memmap
        filter_is_probe_probing)
  then have "?P (final_state (start env boot_magic boot_addr s))"
    using final_state_wp [of ?P "start env boot_magic boot_addr" s] by blast
  then show ?thesis by (simp add: events_of_def probing_events_def)
qed

theorem boot_type_detection_witness:
  "filter is_probe (events_of demo_state (start demo_env 0x2BADB002 7 demo_state)) =
     [EvMultiboot 7] \<and>
   filter is_probe (events_of demo_state (start demo_env 0xFEE1DEAD 7 demo_state)) =
     [EvResume_softreset 7, EvLegacy_boot] \<and>
   filter is_probe (events_of demo_state (start demo_env 0xFEE1DEAD 0 demo_state)) =
     [EvLegacy_boot] \<and>
   filter is_probe (events_of demo_state (start demo_env 0 7 demo_state)) =
     [EvLegacy_boot]"
  using boot_type_detection [of demo_state demo_env "0x2BADB002" 7]
        boot_type_detection [of demo_state demo_env "0xFEE1DEAD" 7]
        boot_type_detection [of demo_state demo_env "0xFEE1DEAD" 0]
        boot_type_detection [of demo_state demo_env 0 7]
  by (simp add: demo_env_def)

subsection \<open>\<^verbatim>\<open>OS::start\<close>: zero high memory\<close>

text \<open>
  C4. When the high-memory size that detection leaves is zero, \<open>start\<close> aborts with
  FatalInvariantViolation; the run has added no range to the memory map and has not
  called \<^verbatim>\<open>assign_range\<close> at all (so neither the pre-heap gap nor the heap was
  registered: the test at line 126 comes before the first registration).
\<close>

theorem zero_high_memory_aborts:
  assumes "discovered_high_memory env boot_magic boot_addr = 0"
  shows "aborted_with FatalInvariantViolation (start env boot_magic boot_addr s) \<and>
         registered_by s (start env boot_magic boot_addr s) = [] \<and>
         (\<forall>r. EvAssign_range r \<notin> set (events_of s (start env boot_magic boot_addr s)))"
proof -
  let ?P = "\<lambda>s'. drop (length (memmap s)) (memmap s') = [] \<and>
                 (\<forall>r. EvAssign_range r \<notin> set (drop (length (trace s)) (trace s')))"
  have "wp (start env boot_magic boot_addr) (\<lambda>s'. False)
          (\<lambda>e' s'. e' = FatalInvariantViolation \<and> ?P s') s"
    using assms by (simp add: start_def wp_rules probing_events_def)
  then have "aborted_with FatalInvariantViolation (start env boot_magic boot_addr s) \<and>
             ?P (final_state (start env boot_magic boot_addr s))"
    using aborted_wp [of FatalInvariantViolation "start env boot_magic boot_addr" s ?P]
    by blast
  then show ?thesis by (simp add: registered_by_def events_of_def)
qed

theorem zero_high_memory_aborts_witness:
  "discovered_high_memory (demo_env\<lparr>legacy_probe := 0\<rparr>) 0 0 = 0 \<and>
   aborted_with FatalInvariantViolation (start (demo_env\<lparr>legacy_probe := 0\<rparr>) 0 0 demo_state) \<and>
   registered_by demo_state (start (demo_env\<lparr>legacy_probe := 0\<rparr>) 0 0 demo_state) = []"
proof -
  have h: "discovered_high_memory (demo_env\<lparr>legacy_probe := 0\<rparr>) 0 0 = 0"
    by (simp add: discovered_high_memory_def demo_env_def)
  from h zero_high_memory_aborts [OF h, of demo_state] show ?thesis by blast
qed

subsection \<open>\<^verbatim>\<open>OS::start\<close>: the memory map\<close>

text \<open>
  C1. The ranges a run of \<open>start\<close> adds to the memory map, whether the run completes
  or aborts: none is inverted (\<open>start \<le> end\<close>), no two of them overlap, and their
  category labels are an initial segment of the fixed order diagnostics region
  (Statman), kernel stack, loaded image (ELF), pre-heap gap, heap; when the run
  completes they are exactly these five, in this order. The first two properties rest
  on the contract of the registry.
\<close>

theorem registered_ranges_layout:
  "valid_ranges (registered_by s (start env boot_magic boot_addr s)) \<and>
   disjoint_ranges (registered_by s (start env boot_magic boot_addr s)) \<and>
   prefix (map r_name (registered_by s (start env boot_magic boot_addr s))) layout_order \<and>
   (completed (start env boot_magic boot_addr s) \<longrightarrow>
      map r_name (registered_by s (start env boot_magic boot_addr s)) = layout_order)"
proof -
  let ?n = "length (memmap s)"
  let ?f = "start env boot_magic boot_addr"
  have "ranges_inv ?n s"
    by (simp add: ranges_inv_def valid_ranges_def disjoint_ranges_def)
  with ranges_inv_start [of ?n env boot_magic boot_addr]
  have "ranges_inv ?n (final_state (?f s))"
    by (simp add: preserves_def)
  then have 1: "valid_ranges (registered_by s (?f s)) \<and> disjoint_ranges (registered_by s (?f s))"
    by (simp add: ranges_inv_def registered_by_def)
  let ?P = "\<lambda>s'. prefix (map r_name (drop ?n (memmap s'))) layout_order"
  have "wp ?f ?P (\<lambda>e. ?P) s"
    by (simp add: start_def wp_rules heap_range_def layout_order_def)
  then have 2: "prefix (map r_name (registered_by s (?f s))) layout_order"
    using final_state_wp [of ?P ?f s] by (simp add: registered_by_def)
  let ?Q = "\<lambda>s'. map r_name (drop ?n (memmap s')) = layout_order"
  have "wp ?f ?Q (\<lambda>e s'. True) s"
    by (simp add: start_def wp_rules heap_range_def layout_order_def)
  then have 3: "completed (?f s) \<longrightarrow> map r_name (registered_by s (?f s)) = layout_order"
    using completed_wp [of ?f s ?Q] by (simp add: registered_by_def)
  from 1 2 3 show ?thesis by blast
qed

theorem registered_ranges_layout_witness:
  "completed (start demo_env 0x2BADB002 0 demo_state) \<and>
   map r_name (registered_by demo_state (start demo_env 0x2BADB002 0 demo_state)) =
     [''Statman'', ''Stack'', ''ELF'', ''Pre-heap'', ''Heap''] \<and>
   valid_ranges (registered_by demo_state (start demo_env 0x2BADB002 0 demo_state)) \<and>
   disjoint_ranges (registered_by demo_state (start demo_env 0x2BADB002 0 demo_state))"
proof -
  have c: "completed (start demo_env 0x2BADB002 0 demo_state)"
    by code_simp
  from c registered_ranges_layout [of demo_state demo_env "0x2BADB002" 0]
  show ?thesis by (simp add: layout_order_def)
qed

subsection \<open>\<^verbatim>\<open>OS::start\<close>: the counters come before any halt\<close>

lemma filter_key_probing: "filter key_event (probing_events env bm ba) = []"
  by (simp add: probing_events_def key_event_def)

lemma filter_key_memmap: "filter key_event (map (\<lambda>r. EvINFO2 f [ARange r]) m) = []"
  by (induction m) (auto simp: key_event_def)

lemma hlt_notin_probing: "EvHlt \<notin> set (probing_events env bm ba)"
  by (simp add: probing_events_def)

lemma hlt_notin_init_plugin: "EvHlt \<notin> set (init_plugin p)"
  by (simp add: init_plugin_def split: plugin_outcome.splits)

lemma counters_first:
  assumes f: "filter key_event evs = [] \<or> prefix [c1, c2] (filter key_event evs)"
    and evs: "evs = pre @ e # post" and e: "key_event e" "e \<noteq> c1" "e \<noteq> c2"
  shows "c1 \<in> set pre \<and> c2 \<in> set pre"
proof -
  from evs e have eq: "filter key_event evs = filter key_event pre @ e # filter key_event post"
    by simp
  with f have p: "prefix [c1, c2] (filter key_event pre @ e # filter key_event post)"
    by auto
  show ?thesis
  proof (cases "filter key_event pre")
    case Nil
    with p e show ?thesis by simp
  next
    case (Cons x xs)
    note c = this
    show ?thesis
    proof (cases xs)
      case Nil
      with c p e show ?thesis by simp
    next
      case (Cons y ys)
      with c p have "x = c1" "y = c2" by simp_all
      moreover from c Cons have "x \<in> set (filter key_event pre)" "y \<in> set (filter key_event pre)"
        by simp_all
      ultimately show ?thesis by simp
    qed
  qed
qed

text \<open>
  C2. In every run of \<open>start\<close> (so in every run in which the high-memory size is
  positive): \<open>start\<close> never executes \<^verbatim>\<open>hlt\<close>; every event at which the processor
  may halt is preceded in the trace by the creation of both counters,
  \<^verbatim>\<open>cpu0.cycles_hlt\<close> and \<^verbatim>\<open>cpu0.cycles_total\<close>; and a run that completes has created
  both and left both pointers non-null (slots 0 and 1). A run that aborts in the
  memory-map stage makes no such call and creates no counter.
\<close>

theorem counters_before_halt:
  "EvHlt \<notin> set (events_of s (start env boot_magic boot_addr s)) \<and>
   (\<forall>pre e post. events_of s (start env boot_magic boot_addr s) = pre @ e # post \<and> can_halt e \<longrightarrow>
      EvStatman_create ''cpu0.cycles_hlt'' \<in> set pre \<and>
      EvStatman_create ''cpu0.cycles_total'' \<in> set pre) \<and>
   (completed (start env boot_magic boot_addr s) \<longrightarrow>
      EvStatman_create ''cpu0.cycles_hlt'' \<in> set (events_of s (start env boot_magic boot_addr s)) \<and>
      EvStatman_create ''cpu0.cycles_total'' \<in> set (events_of s (start env boot_magic boot_addr s)) \<and>
      os_cycles_hlt (final_state (start env boot_magic boot_addr s)) = Some 0 \<and>
      os_cycles_total (final_state (start env boot_magic boot_addr s)) = Some 1)"
proof -
  let ?n = "length (trace s)"
  let ?f = "start env boot_magic boot_addr"
  let ?c1 = "EvStatman_create ''cpu0.cycles_hlt'' :: 'a word event"
  let ?c2 = "EvStatman_create ''cpu0.cycles_total'' :: 'a word event"
  let ?H = "\<lambda>s'. EvHlt \<notin> set (drop ?n (trace s'))"
  have "wp ?f ?H (\<lambda>e. ?H) s"
    by (simp add: start_def wp_rules hlt_notin_probing hlt_notin_init_plugin image_iff)
  then have 1: "EvHlt \<notin> set (events_of s (?f s))"
    using final_state_wp [of ?H ?f s] by (simp add: events_of_def)
  let ?K = "\<lambda>s'. filter key_event (drop ?n (trace s')) = [] \<or>
                 prefix [?c1, ?c2] (filter key_event (drop ?n (trace s')))"
  have "wp ?f ?K (\<lambda>e. ?K) s"
    by (simp add: start_def wp_rules filter_key_probing filter_key_memmap key_event_def)
  then have k: "filter key_event (events_of s (?f s)) = [] \<or>
                prefix [?c1, ?c2] (filter key_event (events_of s (?f s)))"
    using final_state_wp [of ?K ?f s] by (simp add: events_of_def)
  have 2: "?c1 \<in> set pre \<and> ?c2 \<in> set pre"
    if "events_of s (?f s) = pre @ e # post" "can_halt e" for pre e post
  proof -
    from that(2) have "key_event e" "e \<noteq> ?c1" "e \<noteq> ?c2"
      by (auto simp: key_event_def)
    with k that(1) show ?thesis by (rule counters_first)
  qed
  let ?C = "\<lambda>s'. ?c1 \<in> set (drop ?n (trace s')) \<and> ?c2 \<in> set (drop ?n (trace s')) \<and>
                 os_cycles_hlt s' = Some 0 \<and> os_cycles_total s' = Some 1"
  have "wp ?f ?C (\<lambda>e s'. True) s"
    by (simp add: start_def wp_rules)
  then have 3: "completed (?f s) \<longrightarrow> ?C (final_state (?f s))"
    using completed_wp [of ?f s ?C] by blast
  from 1 2 3 show ?thesis by (simp add: events_of_def)
qed


theorem counters_before_halt_witness:
  "completed (start demo_env 0x2BADB002 0 demo_state) \<and>
   events_of demo_state (start demo_env 0x2BADB002 0 demo_state) ! 20 = EvPlatform_init \<and>
   EvStatman_create ''cpu0.cycles_hlt'' \<in>
     set (take 20 (events_of demo_state (start demo_env 0x2BADB002 0 demo_state))) \<and>
   EvStatman_create ''cpu0.cycles_total'' \<in>
     set (take 20 (events_of demo_state (start demo_env 0x2BADB002 0 demo_state))) \<and>
   os_cycles_hlt (final_state (start demo_env 0x2BADB002 0 demo_state)) = Some 0 \<and>
   os_cycles_total (final_state (start demo_env 0x2BADB002 0 demo_state)) = Some 1"
proof -
  let ?evs = "events_of demo_state (start demo_env 0x2BADB002 0 demo_state)"
  have c: "completed (start demo_env 0x2BADB002 0 demo_state)"
    by code_simp
  have len: "20 < length ?evs"
    by code_simp
  have e: "?evs ! 20 = EvPlatform_init"
    by code_simp
  from len have "?evs = take 20 ?evs @ ?evs ! 20 # drop (Suc 20) ?evs"
    by (rule id_take_nth_drop)
  with e have split: "?evs = take 20 ?evs @ EvPlatform_init # drop (Suc 20) ?evs"
    by simp
  have h: "can_halt (EvPlatform_init :: 64 word event)"
    by simp
  from counters_before_halt [of demo_state demo_env "0x2BADB002" 0] c e split h
  show ?thesis by blast
qed


subsection \<open>\<^verbatim>\<open>OS::start\<close>: the heap range\<close>

lemma heap_range_simps:
  "r_name (heap_range env hm) = ''Heap''"
  "r_start (heap_range env hm) = heap_begin env"
  "r_end (heap_range env hm) = (if span_max < hm then span_max else hm)"
  by (auto simp: heap_range_def min_def)

text \<open>The value line 146 computes is never zero: its low 16 bits are all set.\<close>

lemma compute_heap_max_nonzero: "compute_heap_max h \<noteq> 0"
proof
  assume "compute_heap_max h = 0"
  then have "(0x100000 + h) AND 0xffff0000 = (1 :: 'a word)"
    by (simp add: compute_heap_max_def)
  then have "odd ((0x100000 + h) AND (0xffff0000 :: 'a word))"
    by simp
  then show False
    by (simp add: even_and_iff)
qed

text \<open>
  C8. A heap range in the memory map after a run of \<open>start\<close> was built from the
  value line 146 gave \<^verbatim>\<open>heap_max_\<close>, and its upper bound is the minimum of that value
  and the largest \<^verbatim>\<open>ptrdiff_t\<close>: the largest \<^verbatim>\<open>ptrdiff_t\<close> when \<^verbatim>\<open>heap_max_\<close>
  exceeds it, \<^verbatim>\<open>heap_max_\<close> otherwise. A run that completes has registered the heap
  range.
\<close>

theorem heap_range_clamped:
  "(\<forall>r\<in>set (registered_by s (start env boot_magic boot_addr s)). r_name r = ''Heap'' \<longrightarrow>
      heap_max (final_state (start env boot_magic boot_addr s)) =
        compute_heap_max (discovered_high_memory env boot_magic boot_addr) \<and>
      r_end r =
        (if span_max < compute_heap_max (discovered_high_memory env boot_magic boot_addr)
         then span_max
         else compute_heap_max (discovered_high_memory env boot_magic boot_addr))) \<and>
   (completed (start env boot_magic boot_addr s) \<longrightarrow>
      (\<exists>r\<in>set (registered_by s (start env boot_magic boot_addr s)). r_name r = ''Heap''))"
proof -
  let ?n = "length (memmap s)"
  let ?f = "start env boot_magic boot_addr"
  let ?hm = "compute_heap_max (discovered_high_memory env boot_magic boot_addr)"
  let ?P = "\<lambda>s'. \<forall>r\<in>set (drop ?n (memmap s')). r_name r = ''Heap'' \<longrightarrow>
               heap_max s' = ?hm \<and> r_end r = (if span_max < ?hm then span_max else ?hm)"
  have "wp ?f ?P (\<lambda>e. ?P) s"
    by (simp add: start_def wp_rules heap_range_simps)
  then have 1: "?P (final_state (?f s))"
    using final_state_wp [of ?P ?f s] by blast
  let ?Q = "\<lambda>s'. \<exists>r\<in>set (drop ?n (memmap s')). r_name r = ''Heap''"
  have "wp ?f ?Q (\<lambda>e s'. True) s"
    by (simp add: start_def wp_rules heap_range_simps)
  then have 2: "completed (?f s) \<longrightarrow> ?Q (final_state (?f s))"
    using completed_wp [of ?f s ?Q] by blast
  from 1 2 show ?thesis by (simp add: registered_by_def)
qed

theorem heap_range_clamped_witness:
  "completed (start demo_env32 0x2BADB002 0 demo_state) \<and>
   heap_max (final_state (start demo_env32 0x2BADB002 0 demo_state)) = 0xbfffffff \<and>
   (\<exists>r\<in>set (registered_by demo_state (start demo_env32 0x2BADB002 0 demo_state)).
      r_name r = ''Heap'' \<and> r_end r = 0x7fffffff) \<and>
   completed (start demo_env 0x2BADB002 0 demo_state) \<and>
   (\<exists>r\<in>set (registered_by demo_state (start demo_env 0x2BADB002 0 demo_state)).
      r_name r = ''Heap'' \<and> r_end r = 0x7ffffff)"
proof -
  have c32: "completed (start demo_env32 0x2BADB002 0 demo_state)"
    by code_simp
  have hm32: "compute_heap_max (discovered_high_memory demo_env32 0x2BADB002 0) = 0xbfffffff"
    by (simp add: compute_heap_max_def discovered_high_memory_def demo_env32_def)
  have sm32: "(span_max :: 32 word) = 0x7fffffff"
    by (simp add: span_max_def)
  have c64: "completed (start demo_env 0x2BADB002 0 demo_state)"
    by code_simp
  have hm64: "compute_heap_max (discovered_high_memory demo_env 0x2BADB002 0) = 0x7ffffff"
    by (simp add: compute_heap_max_def discovered_high_memory_def demo_env_def)
  have sm64: "(span_max :: 64 word) = 0x7fffffffffffffff"
    by (simp add: span_max_def)
  from heap_range_clamped [of demo_state demo_env32 "0x2BADB002" 0, unfolded hm32 sm32] c32
  have 1: "heap_max (final_state (start demo_env32 0x2BADB002 0 demo_state)) = 0xbfffffff \<and>
           (\<exists>r\<in>set (registered_by demo_state (start demo_env32 0x2BADB002 0 demo_state)).
              r_name r = ''Heap'' \<and> r_end r = 0x7fffffff)"
    by auto
  from heap_range_clamped [of demo_state demo_env "0x2BADB002" 0, unfolded hm64 sm64] c64
  have 2: "\<exists>r\<in>set (registered_by demo_state (start demo_env 0x2BADB002 0 demo_state)).
              r_name r = ''Heap'' \<and> r_end r = 0x7ffffff"
    by auto
  from c32 c64 1 2 show ?thesis by blast
qed

text \<open>
  C9, as stated, fails: the test at line 140 is not on the computed heap ceiling.
  On the 64-bit boot, with \<^verbatim>\<open>heap_max_\<close> zero on entry, the heap start is non-zero and
  the value line 146 would compute is non-zero, and yet the run aborts with
  FatalInvariantViolation right after the image range was registered (its last call
  is the registration of the image; the pre-heap gap is never submitted). The same
  boot with a non-zero \<^verbatim>\<open>heap_max_\<close> on entry completes.
\<close>

theorem heap_test_counterexample:
  "heap_begin demo_env \<noteq> 0 \<and>
   compute_heap_max (discovered_high_memory demo_env 0x2BADB002 0) \<noteq> 0 \<and>
   aborted_with FatalInvariantViolation
     (start demo_env 0x2BADB002 0 (demo_state\<lparr>heap_max := 0\<rparr>)) \<and>
   map r_name (registered_by (demo_state\<lparr>heap_max := 0\<rparr>)
     (start demo_env 0x2BADB002 0 (demo_state\<lparr>heap_max := 0\<rparr>))) =
     [''Statman'', ''Stack'', ''ELF''] \<and>
   last (events_of (demo_state\<lparr>heap_max := 0\<rparr>)
     (start demo_env 0x2BADB002 0 (demo_state\<lparr>heap_max := 0\<rparr>))) =
     EvAssign_range \<lparr>r_start = 0x200000, r_end = 0x2fffff, r_name = ''ELF'',
       r_desc = ''Your service binary including OS'', r_in_use = None\<rparr> \<and>
   completed (start demo_env 0x2BADB002 0 demo_state)"
proof -
  have 1: "heap_begin demo_env \<noteq> 0"
    by (simp add: demo_env_def)
  have 2: "compute_heap_max (discovered_high_memory demo_env 0x2BADB002 0) \<noteq> 0"
    by (rule compute_heap_max_nonzero)
  have 3: "aborted_with FatalInvariantViolation
     (start demo_env 0x2BADB002 0 (demo_state\<lparr>heap_max := 0\<rparr>))"
    by code_simp
  have 4: "map r_name (registered_by (demo_state\<lparr>heap_max := 0\<rparr>)
     (start demo_env 0x2BADB002 0 (demo_state\<lparr>heap_max := 0\<rparr>))) =
     [''Statman'', ''Stack'', ''ELF'']"
    by code_simp
  have 5: "last (events_of (demo_state\<lparr>heap_max := 0\<rparr>)
     (start demo_env 0x2BADB002 0 (demo_state\<lparr>heap_max := 0\<rparr>))) =
     EvAssign_range \<lparr>r_start = 0x200000, r_end = 0x2fffff, r_name = ''ELF'',
       r_desc = ''Your service binary including OS'', r_in_use = None\<rparr>"
    by code_simp
  have 6: "completed (start demo_env 0x2BADB002 0 demo_state)"
    by code_simp
  from 1 2 3 4 5 6 show ?thesis by blast
qed

text \<open>
  C9, amended. The test at line 140 comes before the pre-heap gap and the heap are
  registered. It reads \<^verbatim>\<open>heap_begin\<close> and the value \<^verbatim>\<open>heap_max_\<close> has on entry (line 146
  assigns \<^verbatim>\<open>heap_max_\<close> only afterwards): when either is zero the run aborts with
  FatalInvariantViolation and has registered neither the pre-heap gap nor the heap. So
  a heap range in the memory map has a non-zero start and was registered in a run that
  found \<^verbatim>\<open>heap_max_\<close> non-zero on entry; the ceiling it was built from is the value of
  line 146, which is non-zero by arithmetic, not by a test.
\<close>

theorem heap_bounds_tested_on_entry:
  "(heap_begin env = 0 \<or> heap_max s = 0 \<longrightarrow>
      aborted_with FatalInvariantViolation (start env boot_magic boot_addr s) \<and>
      (\<forall>q\<in>set (registered_by s (start env boot_magic boot_addr s)).
         r_name q \<noteq> ''Pre-heap'' \<and> r_name q \<noteq> ''Heap'')) \<and>
   (\<forall>q\<in>set (registered_by s (start env boot_magic boot_addr s)). r_name q = ''Heap'' \<longrightarrow>
      r_start q = heap_begin env \<and> r_start q \<noteq> 0 \<and> heap_max s \<noteq> 0 \<and>
      heap_max (final_state (start env boot_magic boot_addr s)) =
        compute_heap_max (discovered_high_memory env boot_magic boot_addr) \<and>
      heap_max (final_state (start env boot_magic boot_addr s)) \<noteq> 0)"
proof -
  let ?n = "length (memmap s)"
  let ?f = "start env boot_magic boot_addr"
  let ?hm = "compute_heap_max (discovered_high_memory env boot_magic boot_addr)"
  let ?P = "\<lambda>s'. \<forall>q\<in>set (drop ?n (memmap s')).
               r_name q \<noteq> ''Pre-heap'' \<and> r_name q \<noteq> ''Heap''"
  have 1: "aborted_with FatalInvariantViolation (?f s) \<and> ?P (final_state (?f s))"
    if z: "heap_begin env = 0 \<or> heap_max s = 0"
  proof -
    have "wp ?f (\<lambda>s'. False) (\<lambda>e' s'. e' = FatalInvariantViolation \<and> ?P s') s"
      using z by (auto simp add: start_def wp_rules)
    then show ?thesis
      using aborted_wp [of FatalInvariantViolation ?f s ?P] by blast
  qed
  let ?Q = "\<lambda>s'. \<forall>q\<in>set (drop ?n (memmap s')). r_name q = ''Heap'' \<longrightarrow>
               r_start q = heap_begin env \<and> r_start q \<noteq> 0 \<and> heap_max s' = ?hm"
  have "wp ?f ?Q (\<lambda>e. ?Q) s"
    by (simp add: start_def wp_rules heap_range_simps)
  then have 2: "?Q (final_state (?f s))"
    using final_state_wp [of ?Q ?f s] by blast
  from 1 2 compute_heap_max_nonzero [of "discovered_high_memory env boot_magic boot_addr"]
  show ?thesis unfolding registered_by_def by auto
qed

theorem heap_bounds_tested_on_entry_witness:
  "aborted_with FatalInvariantViolation
     (start (demo_env\<lparr>heap_begin := 0\<rparr>) 0x2BADB002 0 demo_state) \<and>
   aborted_with FatalInvariantViolation
     (start demo_env 0x2BADB002 0 (demo_state\<lparr>heap_max := 0\<rparr>)) \<and>
   (\<exists>q\<in>set (registered_by demo_state (start demo_env 0x2BADB002 0 demo_state)).
      r_name q = ''Heap'' \<and> r_start q = 0x301000 \<and>
      heap_max (final_state (start demo_env 0x2BADB002 0 demo_state)) = 0x7ffffff)"
proof -
  have h: "heap_begin (demo_env\<lparr>heap_begin := 0\<rparr>) = 0"
    by simp
  have z: "heap_max (demo_state\<lparr>heap_max := 0\<rparr> :: 64 word os) = 0"
    by simp
  have x: "list_ex (\<lambda>q. r_name q = ''Heap'')
             (registered_by demo_state (start demo_env 0x2BADB002 0 demo_state))"
    by code_simp
  have hb: "heap_begin demo_env = 0x301000"
    by (simp add: demo_env_def)
  have hm: "compute_heap_max (discovered_high_memory demo_env 0x2BADB002 0) = 0x7ffffff"
    by (simp add: compute_heap_max_def discovered_high_memory_def demo_env_def)
  from heap_bounds_tested_on_entry [of "demo_env\<lparr>heap_begin := 0\<rparr>" demo_state "0x2BADB002" 0] h
  have 1: "aborted_with FatalInvariantViolation
             (start (demo_env\<lparr>heap_begin := 0\<rparr>) 0x2BADB002 0 demo_state)"
    by blast
  from heap_bounds_tested_on_entry [of demo_env "demo_state\<lparr>heap_max := 0\<rparr>" "0x2BADB002" 0] z
  have 2: "aborted_with FatalInvariantViolation
             (start demo_env 0x2BADB002 0 (demo_state\<lparr>heap_max := 0\<rparr>))"
    by blast
  from heap_bounds_tested_on_entry [of demo_env demo_state "0x2BADB002" 0, unfolded hm hb] x
  have 3: "\<exists>q\<in>set (registered_by demo_state (start demo_env 0x2BADB002 0 demo_state)).
      r_name q = ''Heap'' \<and> r_start q = 0x301000 \<and>
      heap_max (final_state (start demo_env 0x2BADB002 0 demo_state)) = 0x7ffffff"
    unfolding list_ex_iff by auto
  from 1 2 3 show ?thesis by blast
qed

subsection \<open>\<^verbatim>\<open>OS::start\<close>: the heap ceiling\<close>

lemma heap_mask_eq: "(0xffff0000 :: 'a::len word) = push_bit 16 (mask 16)"
  by (simp add: mask_eq_exp_minus_1 push_bit_eq_mult)

lemma and_heap_mask_eq: "(x :: 'a::len word) AND 0xffff0000 = push_bit 16 (take_bit 16 (drop_bit 16 x))"
  unfolding heap_mask_eq
  by (rule bit_eqI) (auto simp: bit_simps)

lemma two_power_32_le: "32 \<le> LENGTH('a::len) \<Longrightarrow> (2::nat) ^ 32 \<le> 2 ^ LENGTH('a)"
  using power_increasing [of 32 "LENGTH('a)" "2::nat"] by simp

lemma unat_low_memory_plus:
  assumes "32 \<le> LENGTH('a::len)" "0x100000 + unat (h :: 'a word) < 2 ^ 32"
  shows "unat (0x100000 + h) = 0x100000 + unat h"
proof -
  have c: "unat (0x100000 :: 'a word) = 0x100000"
  proof -
    have "(0x100000 :: nat) < 2 ^ LENGTH('a)"
      using two_power_32_le [OF assms(1)] by simp
    then have "take_bit LENGTH('a) (0x100000 :: nat) = 0x100000"
      by (simp only: take_bit_nat_eq_self)
    then show ?thesis by (simp add: unat_numeral take_bit_eq_mod)
  qed
  have "unat (0x100000 :: 'a word) + unat h < 2 ^ LENGTH('a)"
    using assms(2) two_power_32_le [OF assms(1)] unfolding c by linarith
  then have "unat (0x100000 + h) = unat (0x100000 :: 'a word) + unat h"
    by (simp only: unat_add_lem)
  with c show ?thesis by simp
qed

lemma unat_and_heap_mask:
  assumes "32 \<le> LENGTH('a::len)" "unat (x :: 'a word) < 2 ^ 32"
  shows "unat (x AND 0xffff0000) = unat x div 65536 * 65536"
proof -
  have d: "unat x div 65536 < 65536"
    using assms(2) by (simp add: less_mult_imp_div_less)
  have l: "unat x div 65536 * 65536 < 2 ^ LENGTH('a)"
  proof -
    have "unat x div 65536 * 65536 \<le> unat x" by simp
    also have "\<dots> < 2 ^ LENGTH('a)" by simp
    finally show ?thesis .
  qed
  have "unat (x AND 0xffff0000) =
          take_bit LENGTH('a) (push_bit 16 (take_bit 16 (drop_bit 16 (unat x))))"
    by (simp only: and_heap_mask_eq unsigned_push_bit_eq unsigned_take_bit_eq unat_drop_bit_eq)
  also have "take_bit 16 (drop_bit 16 (unat x)) = unat x div 65536"
    using d by (simp add: drop_bit_eq_div take_bit_nat_eq_self)
  also have "push_bit 16 (unat x div 65536) = unat x div 65536 * 65536"
    by (simp add: push_bit_eq_mult)
  also have "take_bit LENGTH('a) (unat x div 65536 * 65536) = unat x div 65536 * 65536"
    using l by (simp only: take_bit_nat_eq_self)
  finally show ?thesis .
qed

text \<open>Where the sum of 1 MiB and the high-memory size stays below 4 GiB, line 146
  computes the sum rounded down to a multiple of 64 KiB, minus one.\<close>

lemma compute_heap_max_below_4GiB:
  assumes "32 \<le> LENGTH('a::len)" "0x100000 + unat (h :: 'a word) < 2 ^ 32"
  shows "unat (compute_heap_max h) = (0x100000 + unat h) div 65536 * 65536 - 1"
proof -
  let ?x = "0x100000 + h"
  have x: "unat ?x = 0x100000 + unat h"
    using assms by (rule unat_low_memory_plus)
  with assms(2) have "unat ?x < 2 ^ 32" by simp
  with assms(1) have a: "unat (?x AND 0xffff0000) = unat ?x div 65536 * 65536"
    by (rule unat_and_heap_mask)
  have "unat (?x AND 0xffff0000) \<noteq> 0"
    unfolding a x by simp
  then have "?x AND 0xffff0000 \<noteq> 0"
    by (simp add: unat_eq_0)
  then have "unat ((?x AND 0xffff0000) - 1) = unat (?x AND 0xffff0000) - 1"
    by (rule unat_minus_one)
  then show ?thesis
    by (simp only: compute_heap_max_def a x)
qed


text \<open>
  C7. On a 64-bit target with 4 GiB of high memory the sum is \<open>0x100100000\<close>; rounded
  down to a multiple of 64 KiB and decremented it would be \<open>0x1000FFFFF\<close>. The mask
  \<^verbatim>\<open>0xffff0000\<close> also clears the bits from bit 32 up, and line 146 gives \<open>0xFFFFF\<close>:
  both as a value of \<open>compute_heap_max\<close> and as the \<^verbatim>\<open>heap_max_\<close> a run of \<open>start\<close>
  leaves.
\<close>

theorem heap_max_truncated_above_4GiB:
  "compute_heap_max (0x100000000 :: 64 word) = 0xFFFFF \<and>
   (0x100000 + unat (0x100000000 :: 64 word)) div 65536 * 65536 - 1 = 0x1000FFFFF \<and>
   heap_max (final_state
     (start (demo_env\<lparr>multiboot_probe := (\<lambda>a. 0x100000000)\<rparr>) 0x2BADB002 0 demo_state)) =
     0xFFFFF"
proof -
  have 1: "compute_heap_max (0x100000000 :: 64 word) = 0xFFFFF"
    by (simp add: compute_heap_max_def)
  have 2: "(0x100000 + unat (0x100000000 :: 64 word)) div 65536 * 65536 - 1 = 0x1000FFFFF"
    by simp
  have 3: "heap_max (final_state
     (start (demo_env\<lparr>multiboot_probe := (\<lambda>a. 0x100000000)\<rparr>) 0x2BADB002 0 demo_state)) =
     0xFFFFF"
    by code_simp
  from 1 2 3 show ?thesis by blast
qed

subsection \<open>The plugin loop\<close>

lemma plugin_calls:
  "filter is_plugin_call (concat (map init_plugin ps)) =
     map (\<lambda>p. EvPlugin_func (plugin_name p)) ps"
  by (induction ps) (auto simp: init_plugin_def split: plugin_outcome.splits)

lemma plugins_returning:
  assumes "\<forall>p\<in>set ps. plugin_func p = Returns"
  shows "concat (map init_plugin ps) =
           concat (map (\<lambda>p. [EvINFO2 ''* Initializing %s'' [AStr (plugin_name p)],
                               EvPlugin_func (plugin_name p)]) ps)"
    and "filter is_failure_log (concat (map init_plugin ps)) = []"
  using assms by (induction ps) (auto simp: init_plugin_def)

lemma completed_iff_wp: "completed (f s) \<longleftrightarrow> wp f (\<lambda>s'. True) (\<lambda>e s'. False) s"
  by (simp add: wp_def completed_def split: sum.splits prod.splits)

text \<open>Whether \<open>start\<close> completes does not depend on the plugin list.\<close>

lemma start_completed_plugins:
  "completed (start (env\<lparr>plugins := ps\<rparr>) bm ba s) \<longleftrightarrow> completed (start env bm ba s)"
proof -
  have d: "discovered_high_memory (env\<lparr>plugins := ps\<rparr>) bm ba = discovered_high_memory env bm ba"
    by (simp add: discovered_high_memory_def)
  have "wp (start (env\<lparr>plugins := ps\<rparr>) bm ba) (\<lambda>s'. True) (\<lambda>e s'. False) s \<longleftrightarrow>
        wp (start env bm ba) (\<lambda>s'. True) (\<lambda>e s'. False) s"
    by (simp add: start_def wp_rules d heap_range_def)
  then show ?thesis
    using completed_iff_wp [of "start (env\<lparr>plugins := ps\<rparr>) bm ba" s]
      completed_iff_wp [of "start env bm ba" s] by blast
qed


text \<open>
  C3, as stated, fails: a failure is not logged with the plugin's display name. The
  \<^verbatim>\<open>catch\<close> clauses of lines 193-197 log the description alone, or the generic
  message: a plugin named \<open>b\<close> and a plugin named \<open>c\<close> that fail with the same
  description leave the same failure entry, and the generic entry has no argument at
  all.
\<close>

theorem plugin_failure_log_counterexample:
  "filter is_failure_log (events_of (demo_state :: 64 word os) (init_plugins
      [\<lparr>plugin_name = ''b'', plugin_func = Throws_std_exception ''boom''\<rparr>] demo_state)) =
     [EvMYINFO ''Exception thrown when initializing plugin: %s'' [AStr ''boom'']] \<and>
   filter is_failure_log (events_of (demo_state :: 64 word os) (init_plugins
      [\<lparr>plugin_name = ''c'', plugin_func = Throws_std_exception ''boom''\<rparr>] demo_state)) =
     [EvMYINFO ''Exception thrown when initializing plugin: %s'' [AStr ''boom'']] \<and>
   filter is_failure_log (events_of (demo_state :: 64 word os) (init_plugins
      [\<lparr>plugin_name = ''b'', plugin_func = Throws_other\<rparr>] demo_state)) =
     [EvMYINFO ''Unknown exception when initializing plugin'' []]"
  by (simp add: init_plugin_def events_of_def final_state_def)

text \<open>
  C3, amended. A plugin list in which one plugin, \<open>pk\<close>, fails and all plugins before
  and after it return. The loop never aborts. The initializers called are those of
  the list, each once, in list order. Exactly one failure message is logged: the one
  with the description \<^verbatim>\<open>what()\<close> of the exception, or the generic one when what was
  thrown is not a \<^verbatim>\<open>std::exception\<close>; it does not carry the plugin's name. The log
  reads, in order: for each plugin before \<open>pk\<close> the line with its name and its call;
  for \<open>pk\<close> the line with its name, its call and then the failure message (the name
  is in the line logged before the call, for every plugin, failing or not); then the
  same two entries for each plugin after \<open>pk\<close>. A run of \<open>start\<close> with this plugin
  list completes exactly when it completes with no plugin at all.
\<close>

theorem plugin_failure_isolated:
  assumes "\<forall>p\<in>set before. plugin_func p = Returns"
    and "\<forall>p\<in>set after. plugin_func p = Returns"
    and "plugin_func pk \<noteq> Returns"
  shows "completed (init_plugins (before @ pk # after) s) \<and>
    filter is_plugin_call (events_of s (init_plugins (before @ pk # after) s)) =
      map (\<lambda>p. EvPlugin_func (plugin_name p)) (before @ pk # after) \<and>
    filter is_failure_log (events_of s (init_plugins (before @ pk # after) s)) =
      [case plugin_func pk of
         Throws_std_exception what \<Rightarrow>
           EvMYINFO ''Exception thrown when initializing plugin: %s'' [AStr what]
       | _ \<Rightarrow> EvMYINFO ''Unknown exception when initializing plugin'' []] \<and>
    events_of s (init_plugins (before @ pk # after) s) =
      concat (map (\<lambda>p. [EvINFO2 ''* Initializing %s'' [AStr (plugin_name p)],
                          EvPlugin_func (plugin_name p)]) before) @
      [EvINFO2 ''* Initializing %s'' [AStr (plugin_name pk)], EvPlugin_func (plugin_name pk),
       case plugin_func pk of
         Throws_std_exception what \<Rightarrow>
           EvMYINFO ''Exception thrown when initializing plugin: %s'' [AStr what]
       | _ \<Rightarrow> EvMYINFO ''Unknown exception when initializing plugin'' []] @
      concat (map (\<lambda>p. [EvINFO2 ''* Initializing %s'' [AStr (plugin_name p)],
                          EvPlugin_func (plugin_name p)]) after) \<and>
    (completed (start (env\<lparr>plugins := before @ pk # after\<rparr>) boot_magic boot_addr s0) \<longleftrightarrow>
     completed (start (env\<lparr>plugins := []\<rparr>) boot_magic boot_addr s0))"
proof -
  let ?ps = "before @ pk # after"
  have 5: "completed (start (env\<lparr>plugins := ?ps\<rparr>) boot_magic boot_addr s0) \<longleftrightarrow>
           completed (start (env\<lparr>plugins := []\<rparr>) boot_magic boot_addr s0)"
    by (simp only: start_completed_plugins)
  have ev: "events_of s (init_plugins ?ps s) = concat (map init_plugin ?ps)"
    by (simp add: init_plugins_eq events_of_def final_state_def)
  have 1: "completed (init_plugins ?ps s)"
    by (simp add: init_plugins_eq completed_def)
  have 2: "filter is_plugin_call (concat (map init_plugin ?ps)) =
             map (\<lambda>p. EvPlugin_func (plugin_name p)) ?ps"
    by (rule plugin_calls)
  have k: "init_plugin pk =
     [EvINFO2 ''* Initializing %s'' [AStr (plugin_name pk)], EvPlugin_func (plugin_name pk),
       case plugin_func pk of
         Throws_std_exception what \<Rightarrow>
           EvMYINFO ''Exception thrown when initializing plugin: %s'' [AStr what]
       | _ \<Rightarrow> EvMYINFO ''Unknown exception when initializing plugin'' []]"
    using assms(3) by (simp add: init_plugin_def split: plugin_outcome.splits)
  have kf: "filter is_failure_log (init_plugin pk) =
     [case plugin_func pk of
         Throws_std_exception what \<Rightarrow>
           EvMYINFO ''Exception thrown when initializing plugin: %s'' [AStr what]
       | _ \<Rightarrow> EvMYINFO ''Unknown exception when initializing plugin'' []]"
    using assms(3) by (simp add: init_plugin_def split: plugin_outcome.splits)
  have 3: "filter is_failure_log (concat (map init_plugin ?ps)) =
     [case plugin_func pk of
         Throws_std_exception what \<Rightarrow>
           EvMYINFO ''Exception thrown when initializing plugin: %s'' [AStr what]
       | _ \<Rightarrow> EvMYINFO ''Unknown exception when initializing plugin'' []]"
  proof -
    have "filter is_failure_log (concat (map init_plugin ?ps)) =
            filter is_failure_log (concat (map init_plugin before)) @
            filter is_failure_log (init_plugin pk) @
            filter is_failure_log (concat (map init_plugin after))"
      by simp
    then show ?thesis
      by (simp only: plugins_returning(2) [OF assms(1)] plugins_returning(2) [OF assms(2)] kf
          append_Nil append_Nil2)
  qed
  have 4: "concat (map init_plugin ?ps) =
      concat (map (\<lambda>p. [EvINFO2 ''* Initializing %s'' [AStr (plugin_name p)],
                          EvPlugin_func (plugin_name p)]) before) @
      [EvINFO2 ''* Initializing %s'' [AStr (plugin_name pk)], EvPlugin_func (plugin_name pk),
       case plugin_func pk of
         Throws_std_exception what \<Rightarrow>
           EvMYINFO ''Exception thrown when initializing plugin: %s'' [AStr what]
       | _ \<Rightarrow> EvMYINFO ''Unknown exception when initializing plugin'' []] @
      concat (map (\<lambda>p. [EvINFO2 ''* Initializing %s'' [AStr (plugin_name p)],
                          EvPlugin_func (plugin_name p)]) after)"
  proof -
    have "concat (map init_plugin ?ps) =
            concat (map init_plugin before) @ init_plugin pk @ concat (map init_plugin after)"
      by simp
    then show ?thesis
      by (simp only: plugins_returning(1) [OF assms(1)] plugins_returning(1) [OF assms(2)] k)
  qed
  from 1 2 3 4 5 show ?thesis unfolding ev by blast
qed

theorem plugin_failure_isolated_witness:
  "completed (init_plugins
      [\<lparr>plugin_name = ''a'', plugin_func = Returns\<rparr>,
       \<lparr>plugin_name = ''b'', plugin_func = Throws_std_exception ''boom''\<rparr>,
       \<lparr>plugin_name = ''c'', plugin_func = Returns\<rparr>] demo_state) \<and>
   events_of demo_state (init_plugins
      [\<lparr>plugin_name = ''a'', plugin_func = Returns\<rparr>,
       \<lparr>plugin_name = ''b'', plugin_func = Throws_std_exception ''boom''\<rparr>,
       \<lparr>plugin_name = ''c'', plugin_func = Returns\<rparr>] demo_state) =
     [EvINFO2 ''* Initializing %s'' [AStr ''a''], EvPlugin_func ''a'',
      EvINFO2 ''* Initializing %s'' [AStr ''b''], EvPlugin_func ''b'',
      EvMYINFO ''Exception thrown when initializing plugin: %s'' [AStr ''boom''],
      EvINFO2 ''* Initializing %s'' [AStr ''c''], EvPlugin_func ''c''] \<and>
   filter is_failure_log (events_of demo_state (init_plugins
      [\<lparr>plugin_name = ''x'', plugin_func = Throws_other\<rparr>] demo_state)) =
     [EvMYINFO ''Unknown exception when initializing plugin'' []]"
  using plugin_failure_isolated
          [of "[\<lparr>plugin_name = ''a'', plugin_func = Returns\<rparr>]"
              "[\<lparr>plugin_name = ''c'', plugin_func = Returns\<rparr>]"
              "\<lparr>plugin_name = ''b'', plugin_func = Throws_std_exception ''boom''\<rparr>"
              demo_state]
        plugin_failure_isolated
          [of "[]" "[]" "\<lparr>plugin_name = ''x'', plugin_func = Throws_other\<rparr>" demo_state]
  by (simp add: init_plugin_def events_of_def final_state_def completed_def)

subsection \<open>\<^verbatim>\<open>OS::event_loop\<close>\<close>

lemma halt_total:
  assumes "os_cycles_total s = Some t"
  shows "\<exists>s'. halt c w s = Inr s' \<and> trace s' = trace s @ [EvHlt] \<and>
           os_cycles_total s' = Some t"
  using assms by (cases "os_cycles_hlt s") (auto simp: halt_def Let_def)

lemma event_loop_body_exit:
  assumes "os_cycles_total s = Some t" and "\<forall>w\<in>set ws. power_after w" and "\<not> power_after w"
  shows "\<exists>s'. event_loop_body (ws @ w # rest) s = Some (Inr s') \<and>
           trace s' = trace s @ concat (replicate (Suc (length ws)) [EvHlt, EvProcess_interrupts])"
  using assms
proof (induction ws arbitrary: s)
  case Nil
  from halt_total [OF Nil(1)] obtain s1 where
    "halt (cycles_at_halt w) (cycles_at_wake w) s = Inr s1" "trace s1 = trace s @ [EvHlt]"
    by blast
  with Nil(3) show ?case by (simp add: process_interrupts_def)
next
  case (Cons w0 ws)
  from halt_total [OF Cons.prems(1)] obtain s1 where
    h: "halt (cycles_at_halt w0) (cycles_at_wake w0) s = Inr s1" "trace s1 = trace s @ [EvHlt]"
      "os_cycles_total s1 = Some t"
    by blast
  let ?s2 = "process_interrupts (power_after w0) s1"
  from h have t2: "os_cycles_total ?s2 = Some t"
    and tr2: "trace ?s2 = trace s @ [EvHlt, EvProcess_interrupts]"
    by (simp_all add: process_interrupts_def)
  from Cons.prems have p: "power ?s2" and rest: "\<forall>w\<in>set ws. power_after w"
    by (simp_all add: process_interrupts_def)
  from Cons.IH [OF t2 rest Cons.prems(3)] obtain s' where
    "event_loop_body (ws @ w # rest) ?s2 = Some (Inr s')"
    "trace s' = trace ?s2 @ concat (replicate (Suc (length ws)) [EvHlt, EvProcess_interrupts])"
    by blast
  with h p tr2 show ?case by simp
qed

lemma event_loop_body_blocked:
  assumes "os_cycles_total s = Some t" and "\<forall>w\<in>set ws. power_after w"
  shows "event_loop_body ws s = None"
  using assms
proof (induction ws arbitrary: s)
  case Nil
  show ?case by simp
next
  case (Cons w0 ws)
  from halt_total [OF Cons.prems(1)] obtain s1 where
    h: "halt (cycles_at_halt w0) (cycles_at_wake w0) s = Inr s1" "os_cycles_total s1 = Some t"
    by blast
  let ?s2 = "process_interrupts (power_after w0) s1"
  from h have t2: "os_cycles_total ?s2 = Some t"
    by (simp add: process_interrupts_def)
  from Cons.prems have p: "power ?s2" and rest: "\<forall>w\<in>set ws. power_after w"
    by (simp_all add: process_interrupts_def)
  from Cons.IH [OF t2 rest] h p show ?case by simp
qed

lemma count_rounds:
  "count_list (concat (replicate n [EvHlt, EvProcess_interrupts])) EvHlt = n"
  "count_list (concat (replicate n [EvHlt, EvProcess_interrupts])) EvProcess_interrupts = n"
  "count_list (concat (replicate n [EvHlt, EvProcess_interrupts])) EvService_stop = 0"
  by (induction n) auto

text \<open>
  C6, as stated, fails. With \<^verbatim>\<open>power_\<close> false on entry and no interrupt, the loop does
  not exit: it processes interrupts, halts, and stays halted. With \<^verbatim>\<open>power_\<close> false on
  entry and one interrupt, it makes two interrupt-processing calls around one halt
  before it stops the service.
\<close>

theorem event_loop_counterexample:
  "event_loop []
     (demo_state\<lparr>os_cycles_hlt := Some 0, os_cycles_total := Some 1, power := False\<rparr>
        :: 64 word os) = None \<and>
   (\<exists>s'. event_loop [\<lparr>cycles_at_halt = 10, cycles_at_wake = 25, power_after = False\<rparr>]
          (demo_state\<lparr>os_cycles_hlt := Some 0, os_cycles_total := Some 1, power := False\<rparr>) =
            Some (Inr s') \<and>
        trace s' =
          [EvProcess_interrupts, EvHlt, EvProcess_interrupts,
           EvMYINFO ''Stopping service'' [], EvService_stop,
           EvMYINFO ''Powering off'' [], EvArch_poweroff])"
  by (simp add: event_loop_def process_interrupts_def halt_def emit_def demo_state_def)

text \<open>
  C6, amended. The loop processes interrupts once, then repeats: halt, process
  interrupts, test \<^verbatim>\<open>power_\<close>. With the counters registered (\<^verbatim>\<open>os_cycles_total\<close> not
  null): when the wake-ups \<open>ws\<close> leave the flag true and the next wake-up \<open>w\<close> leaves
  it false, the loop exits at that test, whatever interrupts \<open>rest\<close> would have
  followed; there were \<open>length ws + 1\<close> halts, each followed by an
  interrupt-processing call, and one interrupt-processing call before the first halt;
  then the service is stopped, once, and the power-off routine is called last. As
  long as every wake-up leaves the flag true the loop does not exit.
\<close>

theorem event_loop_exit:
  assumes "os_cycles_total s = Some t" and "\<forall>w\<in>set ws. power_after w" and "\<not> power_after w"
  shows "\<exists>s'. event_loop (ws @ w # rest) s = Some (Inr s') \<and>
     events_of s (Inr s') =
       EvProcess_interrupts # concat (replicate (Suc (length ws)) [EvHlt, EvProcess_interrupts]) @
       [EvMYINFO ''Stopping service'' [], EvService_stop, EvMYINFO ''Powering off'' [],
        EvArch_poweroff] \<and>
     count_list (events_of s (Inr s')) EvHlt = Suc (length ws) \<and>
     count_list (events_of s (Inr s')) EvProcess_interrupts = Suc (Suc (length ws)) \<and>
     count_list (events_of s (Inr s')) EvService_stop = 1 \<and>
     event_loop ws s = None"
proof -
  let ?s0 = "process_interrupts (power s) s"
  have t0: "os_cycles_total ?s0 = Some t" and tr0: "trace ?s0 = trace s @ [EvProcess_interrupts]"
    using assms(1) by (simp_all add: process_interrupts_def)
  from event_loop_body_exit [OF t0 assms(2,3), of rest] obtain s1 where
    b: "event_loop_body (ws @ w # rest) ?s0 = Some (Inr s1)"
    and tr1: "trace s1 =
      trace ?s0 @ concat (replicate (Suc (length ws)) [EvHlt, EvProcess_interrupts])"
    by blast
  let ?s' = "s1\<lparr>trace := trace s1 @ [EvMYINFO ''Stopping service'' [], EvService_stop,
                 EvMYINFO ''Powering off'' [], EvArch_poweroff]\<rparr>"
  from b have r: "event_loop (ws @ w # rest) s = Some (Inr ?s')"
    by (simp add: event_loop_def emit_def)
  have ev: "events_of s (Inr ?s') =
       EvProcess_interrupts # concat (replicate (Suc (length ws)) [EvHlt, EvProcess_interrupts]) @
       [EvMYINFO ''Stopping service'' [], EvService_stop, EvMYINFO ''Powering off'' [],
        EvArch_poweroff]"
    using tr0 tr1 by (simp add: events_of_def final_state_def)
  have n: "event_loop ws s = None"
    using event_loop_body_blocked [OF t0 assms(2)] by (simp add: event_loop_def)
  have c: "count_list (events_of s (Inr ?s')) EvHlt = Suc (length ws)"
      "count_list (events_of s (Inr ?s')) EvProcess_interrupts = Suc (Suc (length ws))"
      "count_list (events_of s (Inr ?s')) EvService_stop = 1"
    unfolding ev
    by (simp_all add: count_rounds del: replicate.simps concat.simps)
  from r ev c n show ?thesis by blast
qed


theorem event_loop_exit_witness:
  "\<exists>s'. event_loop
          [\<lparr>cycles_at_halt = 10, cycles_at_wake = 25, power_after = True\<rparr>,
           \<lparr>cycles_at_halt = 30, cycles_at_wake = 70, power_after = False\<rparr>]
          (demo_state\<lparr>os_cycles_hlt := Some 0, os_cycles_total := Some 1\<rparr> :: 64 word os) = Some (Inr s') \<and>
        events_of (demo_state\<lparr>os_cycles_hlt := Some 0, os_cycles_total := Some 1\<rparr>) (Inr s') =
          [EvProcess_interrupts, EvHlt, EvProcess_interrupts, EvHlt, EvProcess_interrupts,
           EvMYINFO ''Stopping service'' [], EvService_stop,
           EvMYINFO ''Powering off'' [], EvArch_poweroff]"
proof -
  let ?s = "demo_state\<lparr>os_cycles_hlt := Some 0, os_cycles_total := Some 1\<rparr> :: 64 word os"
  let ?w1 = "\<lparr>cycles_at_halt = 10, cycles_at_wake = 25, power_after = True\<rparr>"
  let ?w2 = "\<lparr>cycles_at_halt = 30, cycles_at_wake = 70, power_after = False\<rparr>"
  have h1: "os_cycles_total ?s = Some 1"
    by simp
  have h2: "\<forall>w\<in>set [?w1]. power_after w"
    by simp
  have h3: "\<not> power_after ?w2"
    by simp
  have l: "[?w1] @ ?w2 # [] = [?w1, ?w2]"
    by simp
  have c: "EvProcess_interrupts #
       concat (replicate (Suc (length [?w1])) [EvHlt, EvProcess_interrupts]) @
       [EvMYINFO ''Stopping service'' [], EvService_stop, EvMYINFO ''Powering off'' [],
        EvArch_poweroff] = [EvProcess_interrupts, EvHlt, EvProcess_interrupts, EvHlt, EvProcess_interrupts,
           EvMYINFO ''Stopping service'' [], EvService_stop,
           EvMYINFO ''Powering off'' [], EvArch_poweroff :: 64 word event]"
    by simp
  note e = event_loop_exit [OF h1 h2 h3, of "[]", unfolded l c]
  from e show ?thesis
    by (elim exE conjE) (rule exI, rule conjI)
qed


end
